theory Spec2Isabelle
  imports Main "HOL-Library.Word"
begin

section \<open>Strings of the host language\<close>

text \<open>
  A string of the plugin is a sequence of UTF-16 code units; \<open>split\<close>, \<open>trim\<close>,
  \<open>endsWith\<close> and \<open>===\<close> all work on code units, so a string is a list of
  16-bit words here.
\<close>

type_synonym jschar = "16 word"
type_synonym jsstring = "jschar list"

definition ascii :: "string \<Rightarrow> jsstring" where
  \<comment> \<open>the code units of an ASCII literal\<close>
  "ascii s = map (\<lambda>c. word_of_nat (of_char c)) s"

definition comma :: jschar where
  "comma = 0x2C"

definition is_ws :: "jschar \<Rightarrow> bool" where
  \<comment> \<open>the WhiteSpace and LineTerminator code units that \<open>String.prototype.trim\<close> strips\<close>
  "is_ws c \<longleftrightarrow>
     c \<in> set [0x0009, 0x000A, 0x000B, 0x000C, 0x000D, 0x0020, 0x00A0, 0x1680,
               0x2000, 0x2001, 0x2002, 0x2003, 0x2004, 0x2005, 0x2006, 0x2007,
               0x2008, 0x2009, 0x200A, 0x2028, 0x2029, 0x202F, 0x205F, 0x3000,
               0xFEFF]"

definition trim :: "jsstring \<Rightarrow> jsstring" where
  \<comment> \<open>\<open>t.trim()\<close>\<close>
  "trim s = rev (dropWhile is_ws (rev (dropWhile is_ws s)))"

fun split :: "jschar \<Rightarrow> jsstring \<Rightarrow> jsstring list" where
  \<comment> \<open>\<open>s.split(sep)\<close> for a one-unit separator: the pieces between the separators,
      so the empty string gives one empty piece\<close>
  "split sep [] = [[]]"
| "split sep (c # cs) =
     (if c = sep then [] # split sep cs
      else (case split sep cs of
              p # ps \<Rightarrow> (c # p) # ps
            | [] \<Rightarrow> [[c]]))"  \<comment> \<open>the last case never arises: there is always a piece\<close>

definition truthy :: "jsstring \<Rightarrow> bool" where
  \<comment> \<open>a string in a condition: false exactly when empty\<close>
  "truthy s \<longleftrightarrow> s \<noteq> []"

definition endsWith :: "jsstring \<Rightarrow> jsstring \<Rightarrow> bool" where
  \<comment> \<open>\<open>s.endsWith(suf)\<close>\<close>
  "endsWith s suf \<longleftrightarrow>
     length suf \<le> length s \<and> drop (length s - length suf) s = suf"

definition parse_tags :: "jsstring \<Rightarrow> jsstring list" where
  \<comment> \<open>\<open>s.split(',').map(t => t.trim()).filter(t => t)\<close>\<close>
  "parse_tags s = filter truthy (map trim (split comma s))"

fun set_add :: "'a list \<Rightarrow> 'a \<Rightarrow> 'a list" where
  \<comment> \<open>\<open>Set.prototype.add\<close> on the insertion-ordered content of a Set\<close>
  "set_add acc x = (if x \<in> set acc then acc else acc @ [x])"

definition uniq :: "'a list \<Rightarrow> 'a list" where
  \<comment> \<open>\<open>[...new Set(xs)]\<close>: the elements in order of first insertion\<close>
  "uniq xs = foldl set_add [] xs"

fun join :: "jsstring \<Rightarrow> jsstring list \<Rightarrow> jsstring" where
  \<comment> \<open>\<open>xs.join(sep)\<close>\<close>
  "join sep [] = []"
| "join sep [x] = x"
| "join sep (x # y # ys) = x @ sep @ join sep (y # ys)"

section \<open>Data model\<close>

text \<open>
  The records keep the field names of the source, except where a name is taken: the
  numeric key \<open>id\<close> of a row is \<open>rowId\<close>, the fields \<open>id\<close>, \<open>score\<close> and \<open>tags\<close> of
  an image are \<open>image_id\<close>, \<open>image_score\<close> and \<open>image_tags\<close>, the field \<open>id\<close> of the
  selected record is \<open>ident\<close>, and the options carry the prefix \<open>opt_\<close>. An option
  or an argument that was not given is \<open>None\<close>.
\<close>

record Config =
  apiKey :: jsstring
  apiUrl :: jsstring
  defaultTags :: "jsstring list"
  enabledByDefault :: bool
  useGlobalTagsByDefault :: bool

text \<open>
  A row of the table \<open>phimg_config\<close>. The numeric key is absent on the object that
  \<open>getGroupConfig\<close> builds itself and present on every stored row.
\<close>

record GroupConfig =
  rowId :: "nat option"
  groupId :: jsstring
  enabled :: bool
  useGlobalTags :: bool
  customTags :: "jsstring list"

type_synonym table = "GroupConfig list"

text \<open>The partial objects handed to \<open>updateGroupConfig\<close>: one field each.\<close>

datatype partial =
    Enabled bool
  | UseGlobalTags bool
  | CustomTags "jsstring list"

record AuthUser =
  authority :: "int option"

record session =
  guildId :: "jsstring option"
  user :: "AuthUser option"

record options =
  opt_add :: "jsstring option"
  opt_rm :: "jsstring option"
  opt_tags :: "bool option"
  opt_on :: "bool option"
  opt_off :: "bool option"
  opt_onglobal :: "bool option"
  opt_offglobal :: "bool option"
  opt_status :: "bool option"

record Representations =
  full :: jsstring
  medium :: jsstring
  large :: jsstring

record image =
  image_id :: int
  image_score :: int
  image_tags :: "jsstring list"
  representations :: Representations

record selection =
  url :: jsstring
  score :: int
  ident :: int
  tags :: "jsstring list"

section \<open>The image board and the runtime\<close>

record request =
  endpoint :: jsstring
  params :: "(jsstring \<times> jsstring) list"

record board_data =
  total :: int
  images :: "image list"

text \<open>
  The response attached to a failed request: its status and the error text of the
  board's body.
\<close>

record http_response =
  status :: int
  board_error :: jsstring

text \<open>A thrown error object: its \<open>message\<close> and, on a failed request, its \<open>response\<close>.\<close>

record thrown =
  message :: jsstring
  response :: "http_response option"

datatype outcome =
    Resolved board_data
  | Rejected thrown

text \<open>
  What the action cannot decide itself: the board's answer to a request, the number
  drawn by \<open>randomInt\<close>, and the message the runtime puts on the range error of
  \<open>randomInt\<close>.
\<close>

record world =
  board :: "request \<Rightarrow> outcome"
  entropy :: nat
  range_message :: jsstring

definition Error :: "jsstring \<Rightarrow> thrown" where
  \<comment> \<open>\<open>new Error(msg)\<close>\<close>
  "Error msg = \<lparr>message = msg, response = None\<rparr>"

definition no_results :: jsstring where
  \<comment> \<open>the text of lines 99 and 105, eight code units\<close>
  "no_results = [0x672A, 0x627E, 0x5230, 0x5339, 0x914D, 0x7684, 0x56FE, 0x7247]"

definition randomInt :: "world \<Rightarrow> nat \<Rightarrow> nat \<Rightarrow> thrown + nat" where
  \<comment> \<open>\<open>randomInt(min, max)\<close>: a number of \<open>[min, max)\<close>, a range error unless
      \<open>min < max\<close>\<close>
  "randomInt w lo hi =
     (if lo < hi then Inr (lo + entropy w mod (hi - lo))
      else Inl (Error (range_message w)))"

section \<open>The group configuration store\<close>

text \<open>
  The table is the list of its rows in order of creation. The three operations of the
  database that the plugin calls are modelled for one invocation at a time: \<open>get\<close>
  returns the rows of a group, \<open>create\<close> appends a row under the next key, \<open>set\<close>
  merges the given field into every row of the group.
\<close>

definition db_get :: "table \<Rightarrow> jsstring \<Rightarrow> GroupConfig list" where
  \<comment> \<open>\<open>ctx.database.get('phimg_config', { groupId })\<close>\<close>
  "db_get t g = filter (\<lambda>r. groupId r = g) t"

definition next_id :: "table \<Rightarrow> nat" where
  \<comment> \<open>the automatically incremented key\<close>
  "next_id t = Suc (foldr max (map (\<lambda>r. case rowId r of Some n \<Rightarrow> n | None \<Rightarrow> 0) t) 0)"

definition db_create :: "table \<Rightarrow> GroupConfig \<Rightarrow> table" where
  \<comment> \<open>\<open>ctx.database.create('phimg_config', row)\<close>\<close>
  "db_create t r = t @ [r\<lparr>rowId := Some (next_id t)\<rparr>]"

fun merge :: "partial \<Rightarrow> GroupConfig \<Rightarrow> GroupConfig" where
  "merge (Enabled b) r = r\<lparr>enabled := b\<rparr>"
| "merge (UseGlobalTags b) r = r\<lparr>useGlobalTags := b\<rparr>"
| "merge (CustomTags ts) r = r\<lparr>customTags := ts\<rparr>"

definition db_set :: "table \<Rightarrow> jsstring \<Rightarrow> partial \<Rightarrow> table" where
  \<comment> \<open>\<open>ctx.database.set('phimg_config', { groupId }, data)\<close>\<close>
  "db_set t g d = map (\<lambda>r. if groupId r = g then merge d r else r) t"

definition getGroupConfig :: "Config \<Rightarrow> jsstring \<Rightarrow> table \<Rightarrow> GroupConfig \<times> table" where
  "getGroupConfig config g t =
     (case db_get t g of
        groupConfig # _ \<Rightarrow> (groupConfig, t)
      | [] \<Rightarrow>
          (let defaultConfig =
                 \<lparr>rowId = None, groupId = g, enabled = enabledByDefault config,
                  useGlobalTags = useGlobalTagsByDefault config, customTags = []\<rparr>
           in (defaultConfig, db_create t defaultConfig)))"

definition updateGroupConfig :: "jsstring \<Rightarrow> partial \<Rightarrow> table \<Rightarrow> table" where
  "updateGroupConfig g d t = db_set t g d"

section \<open>Query and selection\<close>

definition build_request :: "Config \<Rightarrow> jsstring list \<Rightarrow> jsstring \<Rightarrow> request" where
  \<comment> \<open>lines 80 to 87\<close>
  "build_request config ts key =
     \<lparr>endpoint = apiUrl config,
      params = [(ascii ''q'', join [comma] ts)]
               @ (if truthy key then [(ascii ''key'', key)] else [])
               @ [(ascii ''sf'', ascii ''score''), (ascii ''sd'', ascii ''desc''),
                  (ascii ''per_page'', ascii ''50'')]\<rparr>"

definition rethrow :: "thrown \<Rightarrow> thrown" where
  \<comment> \<open>the \<open>catch\<close> block of \<open>searchImages\<close>: what it throws for the error it caught\<close>
  "rethrow error =
     (if map_option status (response error) = Some 404 then Error no_results
      else Error (message error))"

definition searchImages :: "Config \<Rightarrow> world \<Rightarrow> jsstring list \<Rightarrow> jsstring \<Rightarrow> thrown + image list" where
  "searchImages config w ts key =
     (case board w (build_request config ts key) of
        Rejected error \<Rightarrow> Inl (rethrow error)
      | Resolved d \<Rightarrow>
          if total d = 0 then Inl (rethrow (Error no_results))
          else Inr (images d))"

definition selectRandomImage :: "world \<Rightarrow> image list \<Rightarrow> thrown + selection" where
  "selectRandomImage w imgs =
     (case randomInt w 0 (length imgs) of
        Inl error \<Rightarrow> Inl error
      | Inr index \<Rightarrow>
          (let selected = imgs ! index;
               file = full (representations selected)
           in Inr \<lparr>url = (if endsWith file (ascii ''.webm'')
                           then medium (representations selected)
                           else large (representations selected)),
                    score = image_score selected,
                    ident = image_id selected,
                    tags = image_tags selected\<rparr>))"

section \<open>The command\<close>

text \<open>
  What the action returns. The fixed texts and the templates of the source are one
  constructor each, carrying the values the template prints; the message of a caught
  error is returned as it is.
\<close>

datatype reply =
    GroupOnly                                \<comment> \<open>line 148\<close>
  | Help                                     \<comment> \<open>lines 154 and 215\<close>
  | Status bool "jsstring list" bool         \<comment> \<open>line 164: enabled, custom tags, global tags\<close>
  | DeniedSettings                           \<comment> \<open>line 172\<close>
  | EnabledSet bool                          \<comment> \<open>line 176\<close>
  | NotEnabled                               \<comment> \<open>line 180\<close>
  | DeniedGlobal                             \<comment> \<open>line 185\<close>
  | GlobalSet bool                           \<comment> \<open>line 189\<close>
  | DeniedTags                               \<comment> \<open>line 194\<close>
  | Added "jsstring list"                    \<comment> \<open>line 202\<close>
  | Removed "jsstring list"                  \<comment> \<open>line 206\<close>
  | TagList "jsstring list"                  \<comment> \<open>line 211\<close>
  | Video jsstring                           \<comment> \<open>line 231\<close>
  | ImageInfo jsstring int int "jsstring list"  \<comment> \<open>line 233: url, id, score, tags\<close>
  | ErrorText jsstring                       \<comment> \<open>line 236\<close>

definition flag :: "bool option \<Rightarrow> bool" where
  \<comment> \<open>a boolean option in a condition\<close>
  "flag b \<longleftrightarrow> b = Some True"

definition given :: "jsstring option \<Rightarrow> bool" where
  \<comment> \<open>an optional string in a condition\<close>
  "given x \<longleftrightarrow> (case x of None \<Rightarrow> False | Some s \<Rightarrow> truthy s)"

definition keys_length :: "options \<Rightarrow> nat" where
  \<comment> \<open>\<open>Object.keys(options).length\<close>\<close>
  "keys_length opts =
     length (filter (\<lambda>x. x \<noteq> None) [opt_add opts, opt_rm opts])
     + length (filter (\<lambda>x. x \<noteq> None)
         [opt_tags opts, opt_on opts, opt_off opts, opt_onglobal opts,
          opt_offglobal opts, opt_status opts])"

definition authority_or_0 :: "AuthUser option \<Rightarrow> int" where
  \<comment> \<open>\<open>user?.authority ?? 0\<close>\<close>
  "authority_or_0 u =
     (case u of None \<Rightarrow> 0
      | Some a \<Rightarrow> (case authority a of None \<Rightarrow> 0 | Some n \<Rightarrow> n))"

definition tagsToModify :: "options \<Rightarrow> jsstring list" where
  \<comment> \<open>line 197\<close>
  "tagsToModify opts =
     (case (if given (opt_add opts) then opt_add opts else opt_rm opts) of
        Some s \<Rightarrow> parse_tags s
      | None \<Rightarrow> [])"

definition allTags :: "Config \<Rightarrow> GroupConfig \<Rightarrow> jsstring option \<Rightarrow> jsstring list" where
  \<comment> \<open>lines 218 to 222\<close>
  "allTags config groupConfig targ =
     (let userTags = (case targ of Some s \<Rightarrow> if truthy s then parse_tags s else [] | None \<Rightarrow> []);
          globalTags = (if useGlobalTags groupConfig then defaultTags config else []);
          groupTags = customTags groupConfig
      in uniq (globalTags @ groupTags @ userTags))"

definition search :: "Config \<Rightarrow> world \<Rightarrow> jsstring list \<Rightarrow> reply" where
  \<comment> \<open>lines 224 to 237, for the composed tags\<close>
  "search config w ts =
     (case searchImages config w ts (apiKey config) of
        Inl error \<Rightarrow> ErrorText (message error)
      | Inr imgs \<Rightarrow>
          (case selectRandomImage w imgs of
             Inl error \<Rightarrow> ErrorText (message error)
           | Inr selected \<Rightarrow>
               if endsWith (url selected) (ascii ''.webm'') then Video (url selected)
               else ImageInfo (url selected) (ident selected) (score selected) ts))"

definition dispatch ::
  "Config \<Rightarrow> world \<Rightarrow> jsstring \<Rightarrow> AuthUser option \<Rightarrow> options \<Rightarrow> jsstring option \<Rightarrow>
   GroupConfig \<Rightarrow> table \<Rightarrow> reply \<times> table" where
  \<comment> \<open>lines 153 to 237: the action once the group's configuration is loaded\<close>
  "dispatch config w g u opts targ groupConfig t =
     (if \<not> given targ \<and> keys_length opts = 0 then (Help, t)
      else if flag (opt_status opts) then
        (Status (enabled groupConfig) (customTags groupConfig) (useGlobalTags groupConfig), t)
      else if flag (opt_on opts) \<or> flag (opt_off opts) then
        (if authority_or_0 u < 2 then (DeniedSettings, t)
         else (let e = flag (opt_on opts)
               in (EnabledSet e, updateGroupConfig g (Enabled e) t)))
      else if \<not> enabled groupConfig then (NotEnabled, t)
      else if flag (opt_onglobal opts) \<or> flag (opt_offglobal opts) then
        (if authority_or_0 u < 2 then (DeniedGlobal, t)
         else (let e = flag (opt_onglobal opts)
               in (GlobalSet e, updateGroupConfig g (UseGlobalTags e) t)))
      else if given (opt_add opts) \<or> given (opt_rm opts) then
        (if authority_or_0 u < 2 then (DeniedTags, t)
         else if given (opt_add opts) then
           (let newTags = uniq (customTags groupConfig @ tagsToModify opts)
            in (Added newTags, updateGroupConfig g (CustomTags newTags) t))
         else
           (let newTags = filter (\<lambda>x. x \<notin> set (tagsToModify opts)) (customTags groupConfig)
            in (Removed newTags, updateGroupConfig g (CustomTags newTags) t)))
      else if flag (opt_tags opts) then (TagList (customTags groupConfig), t)
      else if \<not> given targ then (Help, t)
      else (search config w (allTags config groupConfig targ), t))"

definition action ::
  "Config \<Rightarrow> world \<Rightarrow> session option \<Rightarrow> options \<Rightarrow> jsstring option \<Rightarrow> table \<Rightarrow>
   reply \<times> table" where
  \<comment> \<open>lines 147 to 238; the table is the state before and after\<close>
  "action config w sess opts targ t =
     (case sess of
        None \<Rightarrow> (GroupOnly, t)
      | Some s \<Rightarrow>
          if \<not> given (guildId s) then (GroupOnly, t)
          else (case guildId s of
                  None \<Rightarrow> (GroupOnly, t)
                | Some g \<Rightarrow>
                    (case getGroupConfig config g t of
                       (groupConfig, t') \<Rightarrow>
                         dispatch config w g (user s) opts targ groupConfig t')))"

section \<open>Reference definitions\<close>

text \<open>
  The duplicate-free sequence in order of first occurrence, said directly: an element
  stays exactly where nothing equal stands before it.
\<close>

definition first_occurrences :: "'a list \<Rightarrow> 'a list" where
  "first_occurrences xs =
     map (\<lambda>i. xs ! i) (filter (\<lambda>i. xs ! i \<notin> set (take i xs)) [0..<length xs])"

definition searches :: "options \<Rightarrow> jsstring option \<Rightarrow> bool" where
  \<comment> \<open>the invocation is a search: a tags argument and none of the options in effect\<close>
  "searches opts targ \<longleftrightarrow>
     given targ \<and> \<not> flag (opt_status opts) \<and> \<not> flag (opt_on opts) \<and> \<not> flag (opt_off opts)
     \<and> \<not> flag (opt_onglobal opts) \<and> \<not> flag (opt_offglobal opts)
     \<and> \<not> given (opt_add opts) \<and> \<not> given (opt_rm opts) \<and> \<not> flag (opt_tags opts)"

text \<open>
  Splitting on a separator, said directly: the pieces are at least one, none holds the
  separator, and the pieces, each followed by the separator, make up the string
  followed by the separator.
\<close>

definition is_split_on :: "'a \<Rightarrow> 'a list \<Rightarrow> 'a list list \<Rightarrow> bool" where
  "is_split_on sep s ps \<longleftrightarrow>
     ps \<noteq> [] \<and> (\<forall>p \<in> set ps. sep \<notin> set p)
     \<and> concat (map (\<lambda>p. p @ [sep]) ps) = s @ [sep]"

text \<open>
  Trimming, said directly: the result is the string without a run of whitespace at its
  start and another at its end, and it neither starts nor ends with whitespace.
\<close>

definition is_trimmed_of :: "jsstring \<Rightarrow> jsstring \<Rightarrow> bool" where
  "is_trimmed_of s t \<longleftrightarrow>
     (\<exists>a b. s = a @ t @ b \<and> (\<forall>c \<in> set a. is_ws c) \<and> (\<forall>c \<in> set b. is_ws c))
     \<and> (t = [] \<or> (\<not> is_ws (hd t) \<and> \<not> is_ws (last t)))"

section \<open>Concrete inputs\<close>

definition default_config :: Config where
  \<comment> \<open>the defaults of the schema, lines 26 to 30\<close>
  "default_config =
     \<lparr>apiKey = [], apiUrl = ascii ''https://derpibooru.org/api/v1/json/search/images?'',
      defaultTags = [ascii ''safe''], enabledByDefault = True,
      useGlobalTagsByDefault = True\<rparr>"

definition no_options :: options where
  "no_options =
     \<lparr>opt_add = None, opt_rm = None, opt_tags = None, opt_on = None, opt_off = None,
      opt_onglobal = None, opt_offglobal = None, opt_status = None\<rparr>"

definition group1 :: jsstring where
  "group1 = ascii ''1001''"

definition stored :: "bool \<Rightarrow> jsstring list \<Rightarrow> GroupConfig" where
  \<comment> \<open>a stored row of \<open>group1\<close>\<close>
  "stored e ts =
     \<lparr>rowId = Some 1, groupId = group1, enabled = e, useGlobalTags = True, customTags = ts\<rparr>"

definition admin :: session where
  "admin = \<lparr>guildId = Some group1, user = Some \<lparr>authority = Some 3\<rparr>\<rparr>"

definition member :: session where
  \<comment> \<open>a caller whose authority is absent\<close>
  "member = \<lparr>guildId = Some group1, user = Some \<lparr>authority = None\<rparr>\<rparr>"

definition clip :: image where
  \<comment> \<open>the representations of the example in the specification\<close>
  "clip =
     \<lparr>image_id = 7, image_score = 42, image_tags = [ascii ''pony'', ascii ''animated''],
      representations =
        \<lparr>full = ascii ''x.webm'', medium = ascii ''m.mp4'', large = ascii ''l.png''\<rparr>\<rparr>"

definition picture :: image where
  "picture =
     \<lparr>image_id = 8, image_score = 5, image_tags = [ascii ''pony''],
      representations =
        \<lparr>full = ascii ''f.png'', medium = ascii ''m.png'', large = ascii ''l.png''\<rparr>\<rparr>"

definition answering :: "outcome \<Rightarrow> world" where
  \<comment> \<open>a world whose board gives this outcome to every request\<close>
  "answering out = \<lparr>board = (\<lambda>_. out), entropy = 0, range_message = ascii ''out of range''\<rparr>"

definition server_error :: thrown where
  \<comment> \<open>a request answered with status 500: the message is the transport library's, the
      body is the board's\<close>
  "server_error =
     \<lparr>message = ascii ''Request failed with status code 500'',
      response = Some \<lparr>status = 500, board_error = ascii ''Internal Server Error''\<rparr>\<rparr>"

definition not_found :: thrown where
  "not_found =
     \<lparr>message = ascii ''Request failed with status code 404'',
      response = Some \<lparr>status = 404, board_error = ascii ''Not Found''\<rparr>\<rparr>"

section \<open>Sets as lists, splitting and parsing\<close>

lemma set_foldl_set_add: "set (foldl set_add acc xs) = set acc \<union> set xs"
  by (induction xs arbitrary: acc) auto

lemma distinct_foldl_set_add: "distinct acc \<Longrightarrow> distinct (foldl set_add acc xs)"
  by (induction xs arbitrary: acc) auto

lemma set_uniq: "set (uniq xs) = set xs"
  by (simp add: uniq_def set_foldl_set_add)

lemma distinct_uniq: "distinct (uniq xs)"
  by (simp add: uniq_def distinct_foldl_set_add)

lemma uniq_Nil: "uniq [] = []"
  by (simp add: uniq_def)

lemma uniq_snoc: "uniq (xs @ [x]) = (if x \<in> set xs then uniq xs else uniq xs @ [x])"
  using set_uniq [of xs] by (simp add: uniq_def)

lemma uniq_distinct: "distinct xs \<Longrightarrow> uniq xs = xs"
  by (induction xs rule: rev_induct) (simp_all add: uniq_Nil uniq_snoc)

lemma uniq_append: "uniq (xs @ ys) = uniq xs @ filter (\<lambda>y. y \<notin> set xs) (uniq ys)"
proof (induction ys rule: rev_induct)
  case Nil
  show ?case by (simp add: uniq_Nil)
next
  case (snoc y ys)
  have "uniq (xs @ ys @ [y]) = uniq ((xs @ ys) @ [y])" by simp
  also have "\<dots> = (if y \<in> set (xs @ ys) then uniq (xs @ ys) else uniq (xs @ ys) @ [y])"
    by (rule uniq_snoc)
  finally show ?case using snoc by (auto simp: uniq_snoc)
qed

lemma first_occurrences_snoc:
  "first_occurrences (xs @ [x]) =
     first_occurrences xs @ (if x \<in> set xs then [] else [x])"
proof -
  let ?P = "\<lambda>ys i. ys ! i \<notin> set (take i ys)"
  have a: "filter (?P (xs @ [x])) [0..<length xs] = filter (?P xs) [0..<length xs]"
    by (rule filter_cong) (auto simp: nth_append)
  have b: "map (\<lambda>i. (xs @ [x]) ! i) (filter (?P xs) [0..<length xs])
         = map (\<lambda>i. xs ! i) (filter (?P xs) [0..<length xs])"
    by (rule map_cong) (auto simp: nth_append)
  have c: "filter (?P (xs @ [x])) [length xs] = (if x \<in> set xs then [] else [length xs])"
    by simp
  have "first_occurrences (xs @ [x])
        = map (\<lambda>i. (xs @ [x]) ! i)
            (filter (?P (xs @ [x])) [0..<length xs] @ filter (?P (xs @ [x])) [length xs])"
    unfolding first_occurrences_def by simp
  also have "\<dots> = map (\<lambda>i. (xs @ [x]) ! i)
            (filter (?P xs) [0..<length xs] @ (if x \<in> set xs then [] else [length xs]))"
    unfolding a c ..
  also have "\<dots> = map (\<lambda>i. xs ! i) (filter (?P xs) [0..<length xs])
                   @ (if x \<in> set xs then [] else [x])"
    unfolding map_append b by simp
  finally show ?thesis
    unfolding first_occurrences_def .
qed

lemma first_occurrences_Nil: "first_occurrences [] = []"
  by (simp add: first_occurrences_def)

lemma uniq_first_occurrences: "uniq xs = first_occurrences xs"
  by (induction xs rule: rev_induct)
     (simp_all add: uniq_Nil uniq_snoc first_occurrences_snoc first_occurrences_Nil)

lemma split_not_Nil: "split sep s \<noteq> []"
  by (induction s) (auto split: list.splits)

lemma split_no_sep: "sep \<notin> set s \<Longrightarrow> split sep s = [s]"
  by (induction s) auto

lemma split_pieces: "p \<in> set (split sep s) \<Longrightarrow> sep \<notin> set p"
  by (induction s arbitrary: p) (auto split: if_splits list.splits)

lemma join_split: "join [sep] (split sep s) = s"
proof (induction s)
  case Nil
  show ?case by simp
next
  case (Cons c s)
  obtain p ps where e: "split sep s = p # ps"
    using split_not_Nil [of sep s] by (cases "split sep s") auto
  show ?case using Cons e by (cases ps) auto
qed

lemma parse_tags_single:
  "comma \<notin> set s \<Longrightarrow> trim s \<noteq> [] \<Longrightarrow> parse_tags s = [trim s]"
  by (simp add: parse_tags_def split_no_sep truthy_def)

lemma parse_tags_tag:
  "x \<in> set (parse_tags s) \<Longrightarrow> x \<noteq> []"
  by (auto simp: parse_tags_def truthy_def)


lemma split_is_split_on: "is_split_on sep s (split sep s)"
proof -
  have "concat (map (\<lambda>p. p @ [sep]) (split sep s)) = s @ [sep]"
  proof (induction s)
    case Nil
    show ?case by simp
  next
    case (Cons c s)
    obtain p ps where e: "split sep s = p # ps"
      using split_not_Nil [of sep s] by (cases "split sep s") auto
    show ?case using Cons e by auto
  qed
  then show ?thesis
    using split_not_Nil [of sep s] split_pieces [of _ sep s]
    by (auto simp: is_split_on_def)
qed

lemma is_split_on_unique: "is_split_on sep s ps \<Longrightarrow> ps = split sep s"
proof (induction s arbitrary: ps)
  case Nil
  then obtain p ps' where ps: "ps = p # ps'"
    by (cases ps) (auto simp: is_split_on_def)
  with Nil have c: "p @ sep # concat (map (\<lambda>p. p @ [sep]) ps') = [sep]" and n: "sep \<notin> set p"
    by (auto simp: is_split_on_def)
  from c n have p: "p = []" by (cases p) auto
  with c have "ps' = []" by (cases ps') auto
  with p ps show ?case by simp
next
  case (Cons x s)
  then obtain p ps' where ps: "ps = p # ps'"
    by (cases ps) (auto simp: is_split_on_def)
  with Cons.prems have c: "p @ sep # concat (map (\<lambda>p. p @ [sep]) ps') = x # s @ [sep]"
    and n: "sep \<notin> set p" and r: "\<forall>q \<in> set ps'. sep \<notin> set q"
    by (auto simp: is_split_on_def)
  show ?case
  proof (cases "x = sep")
    case True
    with c n have p: "p = []" by (cases p) auto
    with c True have c': "concat (map (\<lambda>p. p @ [sep]) ps') = s @ [sep]" by simp
    then have "ps' \<noteq> []" by auto
    with c' r have "is_split_on sep s ps'" by (simp add: is_split_on_def)
    then have "ps' = split sep s" by (rule Cons.IH)
    with p ps True show ?thesis by simp
  next
    case False
    with c obtain p' where p: "p = x # p'" by (cases p) auto
    with c n r have "is_split_on sep s (p' # ps')" by (simp add: is_split_on_def)
    then have "p' # ps' = split sep s" by (rule Cons.IH)
    with p ps False show ?thesis by (auto split: list.splits)
  qed
qed

lemma trim_is_trimmed_of: "is_trimmed_of s (trim s)"
proof -
  let ?a = "takeWhile is_ws s" and ?q = "dropWhile is_ws s"
  let ?b = "rev (takeWhile is_ws (rev ?q))"
  have t: "trim s = rev (dropWhile is_ws (rev ?q))" by (simp add: trim_def)
  have "rev (dropWhile is_ws (rev ?q)) @ ?b
        = rev (takeWhile is_ws (rev ?q) @ dropWhile is_ws (rev ?q))"
    by (simp only: rev_append)
  also have "\<dots> = rev (rev ?q)"
    by (simp only: takeWhile_dropWhile_id)
  finally have q: "?q = trim s @ ?b" unfolding t by simp
  have "s = ?a @ ?q" by simp
  with q have s: "s = ?a @ trim s @ ?b" by simp
  have a: "\<forall>c \<in> set ?a. is_ws c" by (auto dest: set_takeWhileD)
  have b: "\<forall>c \<in> set ?b. is_ws c" by (auto dest: set_takeWhileD)
  have e: "\<not> is_ws (hd (trim s)) \<and> \<not> is_ws (last (trim s))" if ne: "trim s \<noteq> []"
  proof -
    from ne have d: "dropWhile is_ws (rev ?q) \<noteq> []" by (simp add: t)
    then have "\<not> is_ws (hd (dropWhile is_ws (rev ?q)))" by (rule hd_dropWhile)
    then have l: "\<not> is_ws (last (trim s))" using d by (simp add: t last_rev)
    from ne q have qn: "?q \<noteq> []" by (metis append_is_Nil_conv)
    then have "\<not> is_ws (hd ?q)" by (rule hd_dropWhile)
    moreover from q ne have "hd ?q = hd (trim s)" by (metis hd_append2)
    ultimately show ?thesis using l by simp
  qed
  from s a b e show ?thesis unfolding is_trimmed_of_def by blast
qed

lemma is_trimmed_of_unique: "is_trimmed_of s t \<Longrightarrow> t = trim s"
proof -
  assume "is_trimmed_of s t"
  then obtain a b where s: "s = a @ t @ b" and a: "\<forall>c \<in> set a. is_ws c"
    and b: "\<forall>c \<in> set b. is_ws c" and e: "t = [] \<or> (\<not> is_ws (hd t) \<and> \<not> is_ws (last t))"
    unfolding is_trimmed_of_def by blast
  show "t = trim s"
  proof (cases "t = []")
    case True
    with s a b have "\<forall>c \<in> set s. is_ws c" by auto
    then have d0: "dropWhile is_ws s = []" by (simp only: dropWhile_eq_Nil_conv)
    show ?thesis unfolding trim_def d0 using True by simp
  next
    case False
    with e have h: "\<not> is_ws (hd t)" and l: "\<not> is_ws (last t)" by auto
    from False h have "dropWhile is_ws (t @ b) = t @ b"
      by (cases t) auto
    with a have d: "dropWhile is_ws s = t @ b"
      unfolding s by (simp add: dropWhile_append)
    from False l have "dropWhile is_ws (rev t) = rev t"
      by (cases "rev t") (auto simp: last_rev [symmetric] hd_rev)
    with b have "dropWhile is_ws (rev b @ rev t) = rev t"
      by (simp add: dropWhile_append)
    then show ?thesis by (simp add: trim_def d)
  qed
qed

section \<open>Facts about the store\<close>

lemma getGroupConfig_stored:
  "db_get t g = r # rs \<Longrightarrow> getGroupConfig config g t = (r, t)"
  by (simp add: getGroupConfig_def)

lemma getGroupConfig_fresh:
  "db_get t g = [] \<Longrightarrow>
   getGroupConfig config g t =
     (\<lparr>rowId = None, groupId = g, enabled = enabledByDefault config,
       useGlobalTags = useGlobalTagsByDefault config, customTags = []\<rparr>,
      t @ [\<lparr>rowId = Some (next_id t), groupId = g, enabled = enabledByDefault config,
            useGlobalTags = useGlobalTagsByDefault config, customTags = []\<rparr>])"
  by (simp add: getGroupConfig_def db_create_def)

lemma groupId_merge: "groupId (merge d r) = groupId r"
  by (cases d) simp_all

lemma db_get_db_set: "db_get (db_set t g d) g' = map (\<lambda>r. if g' = g then merge d r else r) (db_get t g')"
  by (induction t) (auto simp: db_get_def db_set_def groupId_merge)

lemma db_get_after_get: "db_get (snd (getGroupConfig config g t)) g \<noteq> []"
  by (cases "db_get t g") (simp_all add: getGroupConfig_stored getGroupConfig_fresh, simp add: db_get_def)

lemma getGroupConfig_unchanged:
  "db_get t g \<noteq> [] \<Longrightarrow> snd (getGroupConfig config g t) = t"
  by (cases "db_get t g") (simp_all add: getGroupConfig_stored)

lemma fst_getGroupConfig_stored:
  "db_get t g \<noteq> [] \<Longrightarrow> fst (getGroupConfig config g t) = hd (db_get t g)"
  by (cases "db_get t g") (simp_all add: getGroupConfig_stored)

lemma next_id_fresh: "r \<in> set t \<Longrightarrow> rowId r \<noteq> Some (next_id t)"
proof -
  have "r \<in> set t \<Longrightarrow> rowId r = Some n \<Longrightarrow>
        n \<le> foldr max (map (\<lambda>r. case rowId r of Some n \<Rightarrow> n | None \<Rightarrow> 0) t) 0" for n
    by (induction t) (auto simp: max_def)
  then show "r \<in> set t \<Longrightarrow> rowId r \<noteq> Some (next_id t)"
    unfolding next_id_def by fastforce
qed

section \<open>Facts about the dispatch\<close>

lemma action_group:
  "guildId s = Some g \<Longrightarrow> g \<noteq> [] \<Longrightarrow>
   action config w (Some s) opts targ t =
     dispatch config w g (user s) opts targ
       (fst (getGroupConfig config g t)) (snd (getGroupConfig config g t))"
  by (simp add: action_def given_def truthy_def split: prod.splits)

lemma keys_length_flag:
  "flag (opt_status opts) \<or> flag (opt_on opts) \<or> flag (opt_off opts) \<or> flag (opt_onglobal opts)
   \<or> flag (opt_offglobal opts) \<or> flag (opt_tags opts) \<or> given (opt_add opts) \<or> given (opt_rm opts)
   \<Longrightarrow> keys_length opts \<noteq> 0"
  by (auto simp: keys_length_def flag_def given_def split: option.splits)

lemma dispatch_search:
  "searches opts targ \<Longrightarrow> enabled gc \<Longrightarrow>
   dispatch config w g u opts targ gc t = (search config w (allTags config gc targ), t)"
  by (simp add: dispatch_def searches_def)

lemma search_no_results:
  assumes "(\<exists>d. board w (build_request config ts (apiKey config)) = Resolved d \<and> total d = 0)
         \<or> (\<exists>e r. board w (build_request config ts (apiKey config)) = Rejected e
                  \<and> response e = Some r \<and> status r = 404)"
  shows "search config w ts = ErrorText no_results"
  using assms by (auto simp: search_def searchImages_def rethrow_def Error_def)

lemma search_rejected:
  assumes "board w (build_request config ts (apiKey config)) = Rejected e"
    and "map_option status (response e) \<noteq> Some 404"
  shows "search config w ts = ErrorText (message e)"
  using assms by (auto simp: search_def searchImages_def rethrow_def Error_def)


lemma allTags_Some: "allTags config gc (Some s) =
   uniq ((if useGlobalTags gc then defaultTags config else []) @ customTags gc @ parse_tags s)"
  by (cases s) (simp_all add: allTags_def truthy_def parse_tags_def trim_def)

lemmas example_defs = default_config_def no_options_def group1_def stored_def admin_def
  member_def clip_def picture_def answering_def server_error_def not_found_def

lemmas string_defs = ascii_def comma_def is_ws_def trim_def truthy_def endsWith_def
  parse_tags_def uniq_def

section \<open>Tag composition\<close>

text \<open>
  Claim C7. The effective tags of a search are the duplicate-free union, in order of
  first occurrence, of the global default tags (only when the group uses them), then
  the group's custom tags, then the user's tags. So the global tags come first, then
  the custom tags that are new, then the user tags that are new; as a function of its
  inputs the composition gives the same sequence each time. The user's tags are the
  pieces of the argument, trimmed, without the empty ones, where the pieces are the
  one way of splitting the argument on commas and the trimmed form of a piece is the
  one string left when the whitespace at both ends is taken away.
\<close>

theorem allTags_composition:
  "allTags config gc (Some s) =
     first_occurrences
       ((if useGlobalTags gc then defaultTags config else []) @ customTags gc @ parse_tags s)
   \<and> distinct (allTags config gc (Some s))
   \<and> allTags config gc (Some s) =
       uniq (if useGlobalTags gc then defaultTags config else [])
       @ filter (\<lambda>x. x \<notin> set (if useGlobalTags gc then defaultTags config else []))
           (uniq (customTags gc)
            @ filter (\<lambda>x. x \<notin> set (customTags gc)) (uniq (parse_tags s)))
   \<and> parse_tags s = filter (\<lambda>t. t \<noteq> []) (map trim (split comma s))
   \<and> (is_split_on comma s ps \<longleftrightarrow> ps = split comma s)
   \<and> (is_trimmed_of p t \<longleftrightarrow> t = trim p)"
proof -
  let ?g = "if useGlobalTags gc then defaultTags config else []"
  have e: "allTags config gc (Some s) = uniq (?g @ customTags gc @ parse_tags s)"
    by (rule allTags_Some)
  have a: "allTags config gc (Some s) = first_occurrences (?g @ customTags gc @ parse_tags s)"
    unfolding e by (rule uniq_first_occurrences)
  have b: "distinct (allTags config gc (Some s))"
    unfolding e by (rule distinct_uniq)
  have c: "allTags config gc (Some s) =
       uniq ?g @ filter (\<lambda>x. x \<notin> set ?g)
           (uniq (customTags gc)
            @ filter (\<lambda>x. x \<notin> set (customTags gc)) (uniq (parse_tags s)))"
    unfolding e uniq_append [of ?g] uniq_append [of "customTags gc"] ..
  have d: "parse_tags s = filter (\<lambda>t. t \<noteq> []) (map trim (split comma s))"
    by (simp add: parse_tags_def truthy_def [abs_def])
  have f: "is_split_on comma s ps \<longleftrightarrow> ps = split comma s"
    using split_is_split_on [of comma s] is_split_on_unique [of comma s ps] by blast
  have g: "is_trimmed_of p t \<longleftrightarrow> t = trim p"
    using trim_is_trimmed_of [of p] is_trimmed_of_unique [of p t] by blast
  from a b c d f g show ?thesis by blast
qed

theorem allTags_composition_witness:
  "allTags default_config (stored True [ascii ''art''])
       (Some (ascii '' safe ,, art,  ,cute,''))
     = [ascii ''safe'', ascii ''art'', ascii ''cute'']
   \<and> parse_tags (ascii '' safe ,, art,  ,cute,'')
     = [ascii ''safe'', ascii ''art'', ascii ''cute'']
   \<and> split comma (ascii '' safe ,, art,  ,cute,'')
     = [ascii '' safe '', [], ascii '' art'', ascii ''  '', ascii ''cute'', []]
   \<and> trim (ascii ''  a b '') = ascii ''a b''
   \<and> first_occurrences
       ([ascii ''safe''] @ [ascii ''art''] @ [ascii ''safe'', ascii ''art'', ascii ''cute''])
     = [ascii ''safe'', ascii ''art'', ascii ''cute'']
   \<and> allTags default_config (stored True [ascii ''art'']) (Some (ascii ''safe, art, cute''))
     = [ascii ''safe'', ascii ''art'', ascii ''cute'']"
proof -
  let ?s = "ascii '' safe ,, art,  ,cute,''"
  note inst = allTags_composition [of default_config "stored True [ascii ''art'']" ?s
      "split comma ?s" "ascii ''  a b ''" "trim (ascii ''  a b '')"]
  have v: "allTags default_config (stored True [ascii ''art'']) (Some ?s)
     = [ascii ''safe'', ascii ''art'', ascii ''cute'']"
    by (simp add: allTags_def example_defs string_defs)
  have v': "allTags default_config (stored True [ascii ''art'']) (Some (ascii ''safe, art, cute''))
     = [ascii ''safe'', ascii ''art'', ascii ''cute'']"
    by (simp add: allTags_def example_defs string_defs)
  have sp: "split comma ?s
     = [ascii '' safe '', [], ascii '' art'', ascii ''  '', ascii ''cute'', []]"
    by (simp add: string_defs)
  have tr: "map trim [ascii '' safe '', [], ascii '' art'', ascii ''  '', ascii ''cute'', []]
     = [ascii ''safe'', [], ascii ''art'', [], ascii ''cute'', []]"
    "trim (ascii ''  a b '') = ascii ''a b''"
    by (simp_all add: string_defs)
  have ne: "filter (\<lambda>t. t \<noteq> []) [ascii ''safe'', [], ascii ''art'', [], ascii ''cute'', []]
     = [ascii ''safe'', ascii ''art'', ascii ''cute'']"
    by (simp add: ascii_def)
  have p: "parse_tags ?s = [ascii ''safe'', ascii ''art'', ascii ''cute'']"
    using inst [THEN conjunct2, THEN conjunct2, THEN conjunct2, THEN conjunct1]
    unfolding sp tr ne .
  have g: "(if useGlobalTags (stored True [ascii ''art'']) then defaultTags default_config else [])
           = [ascii ''safe'']"
    and c: "customTags (stored True [ascii ''art'']) = [ascii ''art'']"
    by (simp_all add: default_config_def stored_def)
  have fo: "first_occurrences
       ([ascii ''safe''] @ [ascii ''art''] @ [ascii ''safe'', ascii ''art'', ascii ''cute''])
     = [ascii ''safe'', ascii ''art'', ascii ''cute'']"
    using inst [THEN conjunct1]
    unfolding v g c p by simp
  from v p sp tr(2) fo v' show ?thesis by blast
qed

section \<open>Selection\<close>

text \<open>
  Claim C8. On a list of candidates that is not empty, \<open>selectRandomImage\<close> returns
  the record of one element of the list; its url is the medium representation of
  that element when the name of its full representation ends in \<open>.webm\<close>, and the
  large one otherwise.
\<close>

theorem selectRandomImage_member:
  assumes "imgs \<noteq> []"
  shows "\<exists>selected \<in> set imgs.
           selectRandomImage w imgs =
             Inr \<lparr>url = (if endsWith (full (representations selected)) (ascii ''.webm'')
                         then medium (representations selected)
                         else large (representations selected)),
                  score = image_score selected,
                  ident = image_id selected,
                  tags = image_tags selected\<rparr>"
proof -
  let ?i = "entropy w mod length imgs"
  from assms have "?i < length imgs" by simp
  then have "imgs ! ?i \<in> set imgs" by (rule nth_mem)
  moreover from assms have "randomInt w 0 (length imgs) = Inr ?i"
    by (simp add: randomInt_def)
  ultimately show ?thesis
    by (auto simp: selectRandomImage_def Let_def)
qed

theorem selectRandomImage_member_witness:
  "[clip] \<noteq> []
   \<and> selectRandomImage (answering (Resolved \<lparr>total = 1, images = [clip]\<rparr>)) [clip] =
       Inr \<lparr>url = ascii ''m.mp4'', score = 42, ident = 7,
            tags = [ascii ''pony'', ascii ''animated'']\<rparr>"
  using selectRandomImage_member [of "[clip]" "answering (Resolved \<lparr>total = 1, images = [clip]\<rparr>)"]
  by (simp add: example_defs string_defs)


section \<open>Search outcomes\<close>

text \<open>
  Claim C4. A search whose board response reports a total of 0, and a search whose
  request fails with status 404, both answer with the same no-results text; the
  action returns it as its reply, and the table is as the lookup of the group's
  configuration left it.
\<close>

theorem no_results_reply:
  assumes "guildId s = Some g" and "g \<noteq> []"
    and "searches opts targ"
    and "enabled (fst (getGroupConfig config g t))"
    and "(\<exists>d. board w (build_request config
                 (allTags config (fst (getGroupConfig config g t)) targ) (apiKey config))
               = Resolved d \<and> total d = 0)
         \<or> (\<exists>e r. board w (build_request config
                 (allTags config (fst (getGroupConfig config g t)) targ) (apiKey config))
               = Rejected e \<and> response e = Some r \<and> status r = 404)"
  shows "action config w (Some s) opts targ t
         = (ErrorText no_results, snd (getGroupConfig config g t))"
proof -
  have "action config w (Some s) opts targ t
        = (search config w (allTags config (fst (getGroupConfig config g t)) targ),
           snd (getGroupConfig config g t))"
    using assms(1-4) by (simp add: action_group dispatch_search)
  moreover have "search config w (allTags config (fst (getGroupConfig config g t)) targ)
        = ErrorText no_results"
    using assms(5) by (rule search_no_results)
  ultimately show ?thesis by simp
qed

theorem no_results_reply_witness:
  "action default_config (answering (Resolved \<lparr>total = 0, images = []\<rparr>)) (Some member)
     no_options (Some (ascii ''cute'')) [stored True []]
   = (ErrorText no_results, [stored True []])
   \<and> action default_config (answering (Rejected not_found)) (Some member)
     no_options (Some (ascii ''cute'')) [stored True []]
   = (ErrorText no_results, [stored True []])"
proof -
  have g: "guildId member = Some group1" "group1 \<noteq> []"
    by (simp_all add: member_def group1_def ascii_def)
  have s: "searches no_options (Some (ascii ''cute''))"
    by (simp add: searches_def no_options_def given_def flag_def truthy_def ascii_def)
  have c: "getGroupConfig default_config group1 [stored True []] = (stored True [], [stored True []])"
    by (simp add: getGroupConfig_def db_get_def stored_def)
  have e: "enabled (fst (getGroupConfig default_config group1 [stored True []]))"
    unfolding c by (simp add: stored_def)
  have "action default_config (answering (Resolved \<lparr>total = 0, images = []\<rparr>)) (Some member)
     no_options (Some (ascii ''cute'')) [stored True []]
   = (ErrorText no_results, [stored True []])"
    using no_results_reply [of member group1 no_options "Some (ascii ''cute'')" default_config
        "[stored True []]" "answering (Resolved \<lparr>total = 0, images = []\<rparr>)", OF g s e]
    unfolding c by (simp add: answering_def)
  moreover have "action default_config (answering (Rejected not_found)) (Some member)
     no_options (Some (ascii ''cute'')) [stored True []]
   = (ErrorText no_results, [stored True []])"
    using no_results_reply [of member group1 no_options "Some (ascii ''cute'')" default_config
        "[stored True []]" "answering (Rejected not_found)", OF g s e]
    unfolding c by (simp add: answering_def not_found_def)
  ultimately show ?thesis by simp
qed

text \<open>
  Claim C9, as stated, fails: for a request answered with status 500 the reply is the
  message of the error the transport library threw, and not the error text of the
  board's body.
\<close>

theorem failure_message_counterexample:
  "action default_config (answering (Rejected server_error)) (Some member)
     no_options (Some (ascii ''cute'')) [stored True []]
   = (ErrorText (ascii ''Request failed with status code 500''), [stored True []])
   \<and> map_option status (response server_error) = Some 500
   \<and> map_option board_error (response server_error) = Some (ascii ''Internal Server Error'')
   \<and> ascii ''Request failed with status code 500'' \<noteq> ascii ''Internal Server Error''"
  by (simp add: example_defs string_defs action_def dispatch_def getGroupConfig_def db_get_def
      given_def flag_def keys_length_def search_def searchImages_def rethrow_def Error_def
      allTags_def build_request_def)

text \<open>
  Claim C9, amended. When the request of a search fails and the failure is not a
  response with status 404 (any other status, or no response at all), the reply is
  the message of the thrown error, as it is.
\<close>

theorem failure_message_passed_through:
  assumes "guildId s = Some g" and "g \<noteq> []"
    and "searches opts targ"
    and "enabled (fst (getGroupConfig config g t))"
    and "board w (build_request config
                 (allTags config (fst (getGroupConfig config g t)) targ) (apiKey config))
         = Rejected e"
    and "map_option status (response e) \<noteq> Some 404"
  shows "action config w (Some s) opts targ t
         = (ErrorText (message e), snd (getGroupConfig config g t))"
proof -
  have "action config w (Some s) opts targ t
        = (search config w (allTags config (fst (getGroupConfig config g t)) targ),
           snd (getGroupConfig config g t))"
    using assms(1-4) by (simp add: action_group dispatch_search)
  moreover have "search config w (allTags config (fst (getGroupConfig config g t)) targ)
        = ErrorText (message e)"
    using assms(5,6) by (rule search_rejected)
  ultimately show ?thesis by simp
qed

theorem failure_message_passed_through_witness:
  "action default_config (answering (Rejected server_error)) (Some member)
     no_options (Some (ascii ''cute'')) [stored True []]
   = (ErrorText (ascii ''Request failed with status code 500''), [stored True []])"
proof -
  have g: "guildId member = Some group1" "group1 \<noteq> []"
    by (simp_all add: member_def group1_def ascii_def)
  have s: "searches no_options (Some (ascii ''cute''))"
    by (simp add: searches_def no_options_def given_def flag_def truthy_def ascii_def)
  have c: "getGroupConfig default_config group1 [stored True []] = (stored True [], [stored True []])"
    by (simp add: getGroupConfig_def db_get_def stored_def)
  have e: "enabled (fst (getGroupConfig default_config group1 [stored True []]))"
    unfolding c by (simp add: stored_def)
  have b: "board (answering (Rejected server_error)) (build_request default_config
                 (allTags default_config (fst (getGroupConfig default_config group1 [stored True []]))
                    (Some (ascii ''cute''))) (apiKey default_config))
         = Rejected server_error"
    by (simp add: answering_def)
  have n: "map_option status (response server_error) \<noteq> Some 404"
    by (simp add: server_error_def)
  show ?thesis
    using failure_message_passed_through [OF g s e b n]
    unfolding c by (simp add: server_error_def)
qed




section \<open>Managing the custom tags\<close>

lemma trim_Nil: "trim [] = []"
  by (simp add: trim_def)

lemma tagsToModify_add:
  "comma \<notin> set x \<Longrightarrow> trim x \<noteq> [] \<Longrightarrow>
   tagsToModify (no_options\<lparr>opt_add := Some x\<rparr>) = [trim x]"
  by (auto simp: tagsToModify_def no_options_def given_def truthy_def parse_tags_single trim_Nil)

lemma tagsToModify_rm:
  "comma \<notin> set x \<Longrightarrow> trim x \<noteq> [] \<Longrightarrow>
   tagsToModify (no_options\<lparr>opt_rm := Some x\<rparr>) = [trim x]"
  by (auto simp: tagsToModify_def no_options_def given_def truthy_def parse_tags_single trim_Nil)

lemma dispatch_add:
  assumes "x \<noteq> []" and "enabled gc" and "2 \<le> authority_or_0 u"
  shows "dispatch config w g u (no_options\<lparr>opt_add := Some x\<rparr>) None gc t
         = (Added (uniq (customTags gc @ tagsToModify (no_options\<lparr>opt_add := Some x\<rparr>))),
            updateGroupConfig g
              (CustomTags (uniq (customTags gc @ tagsToModify (no_options\<lparr>opt_add := Some x\<rparr>)))) t)"
  using assms
  by (simp add: dispatch_def no_options_def given_def truthy_def flag_def keys_length_def Let_def)

lemma dispatch_rm:
  assumes "x \<noteq> []" and "enabled gc" and "2 \<le> authority_or_0 u"
  shows "dispatch config w g u (no_options\<lparr>opt_rm := Some x\<rparr>) None gc t
         = (Removed (filter (\<lambda>y. y \<notin> set (tagsToModify (no_options\<lparr>opt_rm := Some x\<rparr>)))
                       (customTags gc)),
            updateGroupConfig g
              (CustomTags (filter (\<lambda>y. y \<notin> set (tagsToModify (no_options\<lparr>opt_rm := Some x\<rparr>)))
                       (customTags gc))) t)"
  using assms
  by (simp add: dispatch_def no_options_def given_def truthy_def flag_def keys_length_def Let_def)

lemma dispatch_add_rm_idle:
  assumes "\<not> enabled gc \<or> authority_or_0 u < 2"
  shows "snd (dispatch config w g u (no_options\<lparr>opt_add := Some x\<rparr>) None gc t) = t"
    and "snd (dispatch config w g u (no_options\<lparr>opt_rm := Some x\<rparr>) None gc t) = t"
  using assms
  by (auto simp: dispatch_def no_options_def given_def truthy_def flag_def keys_length_def Let_def)

lemma db_set_only_row:
  assumes "db_get t g = [r]"
  shows "db_get (db_set t g d) g = [merge d r]"
  using assms by (simp add: db_get_db_set)

lemma db_set_twice: "db_set (db_set t g (CustomTags a)) g (CustomTags b) = db_set t g (CustomTags b)"
  by (simp add: db_set_def)

lemma db_set_same:
  assumes "db_get t g = [r]"
  shows "db_set t g (CustomTags (customTags r)) = t"
proof -
  have "row \<in> set t \<Longrightarrow> groupId row = g \<Longrightarrow> row = r" for row
  proof -
    assume "row \<in> set t" and "groupId row = g"
    then have "row \<in> set (db_get t g)" by (simp add: db_get_def)
    with assms show "row = r" by simp
  qed
  then have "map (\<lambda>row. if groupId row = g then merge (CustomTags (customTags r)) row else row) t
             = map (\<lambda>row. row) t"
    by (intro map_cong) auto
  then show ?thesis by (simp add: db_set_def)
qed

text \<open>
  Claim C2, as stated, fails: adding a tag that the list already holds changes
  nothing, and removing it then leaves the list without it.
\<close>

theorem add_rm_counterexample:
  "action default_config (answering (Rejected not_found)) (Some admin)
     (no_options\<lparr>opt_add := Some (ascii ''art'')\<rparr>) None [stored True [ascii ''art'']]
   = (Added [ascii ''art''], [stored True [ascii ''art'']])
   \<and> action default_config (answering (Rejected not_found)) (Some admin)
     (no_options\<lparr>opt_rm := Some (ascii ''art'')\<rparr>) None [stored True [ascii ''art'']]
   = (Removed [], [stored True []])
   \<and> customTags (stored True []) \<noteq> customTags (stored True [ascii ''art''])"
  by (simp add: example_defs string_defs action_def dispatch_def getGroupConfig_def db_get_def
      given_def flag_def keys_length_def authority_or_0_def tagsToModify_def
      updateGroupConfig_def db_set_def Let_def)

text \<open>
  Claim C2, amended. For a group with one stored row whose custom tags have no
  duplicates, and a tag string without a comma whose trimmed form is not empty and
  not yet in the list, \<open>add\<close> followed by \<open>rm\<close> of that string by the same
  caller leaves the table as it was before the \<open>add\<close>.
\<close>

theorem add_rm_roundtrip:
  assumes "guildId s = Some g" and "g \<noteq> []"
    and "db_get t g = [r]"
    and "distinct (customTags r)"
    and "comma \<notin> set x" and "trim x \<noteq> []"
    and "trim x \<notin> set (customTags r)"
  shows "snd (action config w' (Some s) (no_options\<lparr>opt_rm := Some x\<rparr>) None
               (snd (action config w (Some s) (no_options\<lparr>opt_add := Some x\<rparr>) None t)))
         = t"
proof -
  let ?add = "no_options\<lparr>opt_add := Some x\<rparr>" and ?rm = "no_options\<lparr>opt_rm := Some x\<rparr>"
  define t1 where "t1 = snd (action config w (Some s) ?add None t)"
  from assms(6) have x: "x \<noteq> []" by (auto simp: trim_Nil)
  have get: "getGroupConfig config g t = (r, t)"
    using assms(3) by (rule getGroupConfig_stored)
  have a1: "action config w (Some s) ?add None t = dispatch config w g (user s) ?add None r t"
    using assms(1,2) by (simp add: action_group get)
  have a2: "action config w' (Some s) ?rm None t1
            = dispatch config w' g (user s) ?rm None
                (fst (getGroupConfig config g t1)) (snd (getGroupConfig config g t1))"
    using assms(1,2) by (rule action_group)
  have "snd (action config w' (Some s) ?rm None t1) = t"
  proof (cases "enabled r \<and> 2 \<le> authority_or_0 (user s)")
    case False
    then have idle: "\<not> enabled r \<or> authority_or_0 (user s) < 2" by auto
    have "snd (dispatch config w g (user s) ?add None r t) = t"
      using idle by (rule dispatch_add_rm_idle)
    then have e: "t1 = t" by (simp add: t1_def a1)
    have "snd (dispatch config w' g (user s) ?rm None r t) = t"
      using idle by (rule dispatch_add_rm_idle)
    with a2 show ?thesis unfolding e get by simp
  next
    case True
    let ?new = "customTags r @ [trim x]"
    have u: "uniq ?new = ?new"
      using assms(4,7) by (intro uniq_distinct) simp
    have t1: "t1 = db_set t g (CustomTags ?new)"
      unfolding t1_def a1 using True x assms(5,6)
      by (simp add: dispatch_add tagsToModify_add u updateGroupConfig_def)
    have g1: "db_get t1 g = [r\<lparr>customTags := ?new\<rparr>]"
      unfolding t1 using assms(3) by (simp add: db_set_only_row)
    have get1: "getGroupConfig config g t1 = (r\<lparr>customTags := ?new\<rparr>, t1)"
      using g1 by (rule getGroupConfig_stored)
    have f: "filter (\<lambda>y. y \<noteq> trim x) (customTags r) = customTags r"
      using assms(7) by (auto simp: filter_id_conv)
    have "snd (action config w' (Some s) ?rm None t1)
          = db_set t1 g (CustomTags (customTags r))"
      unfolding a2 get1 using True x assms(5,6)
      by (simp add: dispatch_rm tagsToModify_rm f updateGroupConfig_def)
    also have "\<dots> = db_set t g (CustomTags (customTags r))"
      unfolding t1 by (rule db_set_twice)
    also have "\<dots> = t"
      using assms(3) by (rule db_set_same)
    finally show ?thesis .
  qed
  then show ?thesis unfolding t1_def .
qed

theorem add_rm_roundtrip_witness:
  "action default_config (answering (Rejected not_found)) (Some admin)
     (no_options\<lparr>opt_add := Some (ascii '' cute '')\<rparr>) None [stored True [ascii ''art'']]
   = (Added [ascii ''art'', ascii ''cute''], [stored True [ascii ''art'', ascii ''cute'']])
   \<and> snd (action default_config (answering (Rejected not_found)) (Some admin)
       (no_options\<lparr>opt_rm := Some (ascii '' cute '')\<rparr>) None
       [stored True [ascii ''art'', ascii ''cute'']])
   = [stored True [ascii ''art'']]"
proof -
  let ?w = "answering (Rejected not_found)" and ?t = "[stored True [ascii ''art'']]"
  have g: "guildId admin = Some group1" "group1 \<noteq> []"
    by (simp_all add: admin_def group1_def ascii_def)
  have d: "db_get ?t group1 = [stored True [ascii ''art'']]"
    by (simp add: db_get_def stored_def)
  have h: "distinct (customTags (stored True [ascii ''art'']))"
    "comma \<notin> set (ascii '' cute '')" "trim (ascii '' cute '') \<noteq> []"
    "trim (ascii '' cute '') \<notin> set (customTags (stored True [ascii ''art'']))"
    by (simp_all add: stored_def string_defs)
  have a: "action default_config ?w (Some admin)
     (no_options\<lparr>opt_add := Some (ascii '' cute '')\<rparr>) None ?t
   = (Added [ascii ''art'', ascii ''cute''], [stored True [ascii ''art'', ascii ''cute'']])"
    by (simp add: example_defs string_defs action_def dispatch_def getGroupConfig_def db_get_def
      given_def flag_def keys_length_def authority_or_0_def tagsToModify_def
      updateGroupConfig_def db_set_def Let_def)
  show ?thesis
    using add_rm_roundtrip [OF g d h, of default_config ?w ?w]
    unfolding a by simp
qed


section \<open>Authority and priority\<close>

lemma dispatch_below_authority:
  "authority_or_0 u < 2 \<Longrightarrow> snd (dispatch config w g u opts targ gc t) = t"
  by (simp add: dispatch_def Let_def)

text \<open>
  Claim C3, as stated, fails: on a group that is not enabled, \<open>add\<close> by a caller
  without authority is answered with the not-enabled text, not with a permission
  error.
\<close>

theorem below_authority_counterexample:
  "authority_or_0 (user member) < 2
   \<and> action default_config (answering (Rejected not_found)) (Some member)
       (no_options\<lparr>opt_add := Some (ascii ''art'')\<rparr>) None [stored False []]
     = (NotEnabled, [stored False []])
   \<and> NotEnabled \<noteq> DeniedSettings \<and> NotEnabled \<noteq> DeniedGlobal \<and> NotEnabled \<noteq> DeniedTags"
  by (simp add: example_defs string_defs action_def dispatch_def getGroupConfig_def db_get_def
      given_def flag_def keys_length_def authority_or_0_def)

text \<open>
  Claim C3, amended. In a group conversation, a caller whose authority is below 2
  (an absent authority counting as 0) causes no update, whatever the options: the
  table is as the lookup of the group's configuration left it, so unchanged when the
  group has a stored row. Without the \<open>status\<close> option, \<open>on\<close> and \<open>off\<close> are
  answered with a permission error; \<open>onglobal\<close>, \<open>offglobal\<close>, \<open>add\<close> and
  \<open>rm\<close> are answered with a permission error when the group is enabled and no
  option before them in the order of the dispatch is in effect, and with the
  not-enabled text when the group is not enabled and neither \<open>on\<close> nor \<open>off\<close> is
  given.
\<close>

theorem below_authority:
  assumes "guildId s = Some g" and "g \<noteq> []"
    and "authority_or_0 (user s) < 2"
  shows "snd (action config w (Some s) opts targ t) = snd (getGroupConfig config g t)
   \<and> (db_get t g \<noteq> [] \<longrightarrow> snd (action config w (Some s) opts targ t) = t)
   \<and> (\<not> flag (opt_status opts) \<and> (flag (opt_on opts) \<or> flag (opt_off opts))
        \<longrightarrow> fst (action config w (Some s) opts targ t) = DeniedSettings)
   \<and> (\<not> flag (opt_status opts) \<and> \<not> flag (opt_on opts) \<and> \<not> flag (opt_off opts)
        \<and> enabled (fst (getGroupConfig config g t))
        \<and> (flag (opt_onglobal opts) \<or> flag (opt_offglobal opts))
        \<longrightarrow> fst (action config w (Some s) opts targ t) = DeniedGlobal)
   \<and> (\<not> flag (opt_status opts) \<and> \<not> flag (opt_on opts) \<and> \<not> flag (opt_off opts)
        \<and> enabled (fst (getGroupConfig config g t))
        \<and> \<not> flag (opt_onglobal opts) \<and> \<not> flag (opt_offglobal opts)
        \<and> (given (opt_add opts) \<or> given (opt_rm opts))
        \<longrightarrow> fst (action config w (Some s) opts targ t) = DeniedTags)
   \<and> (\<not> flag (opt_status opts) \<and> \<not> flag (opt_on opts) \<and> \<not> flag (opt_off opts)
        \<and> \<not> enabled (fst (getGroupConfig config g t))
        \<and> (flag (opt_onglobal opts) \<or> flag (opt_offglobal opts)
            \<or> given (opt_add opts) \<or> given (opt_rm opts))
        \<longrightarrow> fst (action config w (Some s) opts targ t) = NotEnabled)"
proof -
  let ?gc = "fst (getGroupConfig config g t)" and ?t = "snd (getGroupConfig config g t)"
  have a: "action config w (Some s) opts targ t = dispatch config w g (user s) opts targ ?gc ?t"
    using assms(1,2) by (rule action_group)
  have 1: "snd (action config w (Some s) opts targ t) = ?t"
    unfolding a using assms(3) by (rule dispatch_below_authority)
  have 2: "db_get t g \<noteq> [] \<longrightarrow> snd (action config w (Some s) opts targ t) = t"
    unfolding 1 by (simp add: getGroupConfig_unchanged)
  have 3: "\<not> flag (opt_status opts) \<and> (flag (opt_on opts) \<or> flag (opt_off opts))
        \<longrightarrow> fst (action config w (Some s) opts targ t) = DeniedSettings"
    unfolding a using assms(3) keys_length_flag [of opts]
    by (auto simp: dispatch_def)
  have 4: "\<not> flag (opt_status opts) \<and> \<not> flag (opt_on opts) \<and> \<not> flag (opt_off opts)
        \<and> enabled ?gc \<and> (flag (opt_onglobal opts) \<or> flag (opt_offglobal opts))
        \<longrightarrow> fst (action config w (Some s) opts targ t) = DeniedGlobal"
    unfolding a using assms(3) keys_length_flag [of opts]
    by (auto simp: dispatch_def)
  have 5: "\<not> flag (opt_status opts) \<and> \<not> flag (opt_on opts) \<and> \<not> flag (opt_off opts)
        \<and> enabled ?gc \<and> \<not> flag (opt_onglobal opts) \<and> \<not> flag (opt_offglobal opts)
        \<and> (given (opt_add opts) \<or> given (opt_rm opts))
        \<longrightarrow> fst (action config w (Some s) opts targ t) = DeniedTags"
    unfolding a using assms(3) keys_length_flag [of opts]
    by (auto simp: dispatch_def)
  have 6: "\<not> flag (opt_status opts) \<and> \<not> flag (opt_on opts) \<and> \<not> flag (opt_off opts)
        \<and> \<not> enabled ?gc
        \<and> (flag (opt_onglobal opts) \<or> flag (opt_offglobal opts)
            \<or> given (opt_add opts) \<or> given (opt_rm opts))
        \<longrightarrow> fst (action config w (Some s) opts targ t) = NotEnabled"
    unfolding a using keys_length_flag [of opts]
    by (auto simp: dispatch_def)
  from 1 2 3 4 5 6 show ?thesis by blast
qed

theorem below_authority_witness:
  "authority_or_0 (user member) < 2
   \<and> action default_config (answering (Rejected not_found)) (Some member)
       (no_options\<lparr>opt_off := Some True\<rparr>) None [stored True []]
     = (DeniedSettings, [stored True []])
   \<and> action default_config (answering (Rejected not_found)) (Some member)
       (no_options\<lparr>opt_offglobal := Some True\<rparr>) None [stored True []]
     = (DeniedGlobal, [stored True []])
   \<and> action default_config (answering (Rejected not_found)) (Some member)
       (no_options\<lparr>opt_add := Some (ascii ''art'')\<rparr>) None [stored True []]
     = (DeniedTags, [stored True []])
   \<and> action default_config (answering (Rejected not_found)) (Some member)
       (no_options\<lparr>opt_rm := Some (ascii ''art'')\<rparr>) None [stored False [ascii ''art'']]
     = (NotEnabled, [stored False [ascii ''art'']])"
proof -
  let ?w = "answering (Rejected not_found)" and ?t = "[stored True []]"
  let ?t' = "[stored False [ascii ''art'']]"
  have g: "guildId member = Some group1" "group1 \<noteq> []"
    by (simp_all add: member_def group1_def ascii_def)
  have a: "authority_or_0 (user member) < 2"
    by (simp add: member_def authority_or_0_def)
  have c: "getGroupConfig default_config group1 ?t = (stored True [], ?t)"
    by (simp add: getGroupConfig_def db_get_def stored_def)
  have e: "enabled (stored True [])"
    by (simp add: stored_def)
  have 1: "action default_config ?w (Some member) (no_options\<lparr>opt_off := Some True\<rparr>) None ?t
     = (DeniedSettings, ?t)"
    using below_authority [OF g a, of default_config ?w "no_options\<lparr>opt_off := Some True\<rparr>" None ?t]
    by (simp add: c e no_options_def flag_def given_def prod_eq_iff)
  have 2: "action default_config ?w (Some member) (no_options\<lparr>opt_offglobal := Some True\<rparr>) None ?t
     = (DeniedGlobal, ?t)"
    using below_authority [OF g a, of default_config ?w "no_options\<lparr>opt_offglobal := Some True\<rparr>" None ?t]
    by (simp add: c e no_options_def flag_def given_def prod_eq_iff)
  have 3: "action default_config ?w (Some member) (no_options\<lparr>opt_add := Some (ascii ''art'')\<rparr>) None ?t
     = (DeniedTags, ?t)"
    using below_authority [OF g a, of default_config ?w "no_options\<lparr>opt_add := Some (ascii ''art'')\<rparr>" None ?t]
    by (simp add: c e no_options_def flag_def given_def truthy_def ascii_def prod_eq_iff)
  have c': "getGroupConfig default_config group1 ?t' = (stored False [ascii ''art''], ?t')"
    by (simp add: getGroupConfig_def db_get_def stored_def)
  have e': "\<not> enabled (stored False [ascii ''art''])"
    by (simp add: stored_def)
  have n: "ascii ''art'' \<noteq> []"
    by (simp add: ascii_def)
  have 4: "action default_config ?w (Some member) (no_options\<lparr>opt_rm := Some (ascii ''art'')\<rparr>) None ?t'
     = (NotEnabled, ?t')"
    using below_authority [OF g a, of default_config ?w "no_options\<lparr>opt_rm := Some (ascii ''art'')\<rparr>" None ?t']
    by (simp add: c' e' n no_options_def flag_def given_def truthy_def prod_eq_iff)
  from a 1 2 3 4 show ?thesis by blast
qed

lemma enabled_after_update:
  "enabled (fst (getGroupConfig config g
      (updateGroupConfig g (Enabled e) (snd (getGroupConfig config g t))))) = e"
proof -
  let ?t = "snd (getGroupConfig config g t)"
  obtain r rs where d: "db_get ?t g = r # rs"
    using db_get_after_get [of config g t] by (cases "db_get ?t g") auto
  have "db_get (updateGroupConfig g (Enabled e) ?t) g = merge (Enabled e) r # map (merge (Enabled e)) rs"
    by (simp add: updateGroupConfig_def db_get_db_set d)
  then have "getGroupConfig config g (updateGroupConfig g (Enabled e) ?t)
             = (merge (Enabled e) r, updateGroupConfig g (Enabled e) ?t)"
    by (rule getGroupConfig_stored)
  then show ?thesis by simp
qed

text \<open>
  Claim C5. In a group conversation on a group that is not enabled: the \<open>status\<close>
  option is answered with the status; without it, \<open>on\<close> and \<open>off\<close> are handled,
  and with authority 2 or more they set the group's \<open>enabled\<close> flag; every later
  operation (\<open>onglobal\<close>, \<open>offglobal\<close>, \<open>add\<close>, \<open>rm\<close>, \<open>tags\<close>, a search) is
  answered with the not-enabled text and changes nothing.
\<close>

theorem dispatch_priority:
  assumes "guildId s = Some g" and "g \<noteq> []"
    and "\<not> enabled (fst (getGroupConfig config g t))"
  shows "(flag (opt_status opts) \<longrightarrow>
            action config w (Some s) opts targ t
            = (Status False (customTags (fst (getGroupConfig config g t)))
                 (useGlobalTags (fst (getGroupConfig config g t))),
               snd (getGroupConfig config g t)))
   \<and> (\<not> flag (opt_status opts) \<and> (flag (opt_on opts) \<or> flag (opt_off opts))
        \<and> 2 \<le> authority_or_0 (user s) \<longrightarrow>
            action config w (Some s) opts targ t
            = (EnabledSet (flag (opt_on opts)),
               updateGroupConfig g (Enabled (flag (opt_on opts))) (snd (getGroupConfig config g t)))
            \<and> enabled (fst (getGroupConfig config g (snd (action config w (Some s) opts targ t))))
              = flag (opt_on opts))
   \<and> (\<not> flag (opt_status opts) \<and> (flag (opt_on opts) \<or> flag (opt_off opts))
        \<and> authority_or_0 (user s) < 2 \<longrightarrow>
            action config w (Some s) opts targ t
            = (DeniedSettings, snd (getGroupConfig config g t)))
   \<and> (\<not> flag (opt_status opts) \<and> \<not> flag (opt_on opts) \<and> \<not> flag (opt_off opts)
        \<and> (flag (opt_onglobal opts) \<or> flag (opt_offglobal opts) \<or> given (opt_add opts)
            \<or> given (opt_rm opts) \<or> flag (opt_tags opts) \<or> given targ) \<longrightarrow>
            action config w (Some s) opts targ t
            = (NotEnabled, snd (getGroupConfig config g t)))"
proof -
  let ?gc = "fst (getGroupConfig config g t)" and ?t = "snd (getGroupConfig config g t)"
  have a: "action config w (Some s) opts targ t = dispatch config w g (user s) opts targ ?gc ?t"
    using assms(1,2) by (rule action_group)
  have 1: "flag (opt_status opts) \<longrightarrow>
            action config w (Some s) opts targ t
            = (Status False (customTags ?gc) (useGlobalTags ?gc), ?t)"
    unfolding a using assms(3) keys_length_flag [of opts]
    by (auto simp: dispatch_def)
  have 2: "\<not> flag (opt_status opts) \<and> (flag (opt_on opts) \<or> flag (opt_off opts))
        \<and> 2 \<le> authority_or_0 (user s) \<longrightarrow>
            action config w (Some s) opts targ t
            = (EnabledSet (flag (opt_on opts)),
               updateGroupConfig g (Enabled (flag (opt_on opts))) ?t)"
    unfolding a using keys_length_flag [of opts]
    by (auto simp: dispatch_def Let_def)
  have 3: "\<not> flag (opt_status opts) \<and> (flag (opt_on opts) \<or> flag (opt_off opts))
        \<and> 2 \<le> authority_or_0 (user s) \<longrightarrow>
            enabled (fst (getGroupConfig config g (snd (action config w (Some s) opts targ t))))
              = flag (opt_on opts)"
    using 2 by (simp add: enabled_after_update)
  have 4: "\<not> flag (opt_status opts) \<and> (flag (opt_on opts) \<or> flag (opt_off opts))
        \<and> authority_or_0 (user s) < 2 \<longrightarrow>
            action config w (Some s) opts targ t = (DeniedSettings, ?t)"
    unfolding a using keys_length_flag [of opts]
    by (auto simp: dispatch_def)
  have 5: "\<not> flag (opt_status opts) \<and> \<not> flag (opt_on opts) \<and> \<not> flag (opt_off opts)
        \<and> (flag (opt_onglobal opts) \<or> flag (opt_offglobal opts) \<or> given (opt_add opts)
            \<or> given (opt_rm opts) \<or> flag (opt_tags opts) \<or> given targ) \<longrightarrow>
            action config w (Some s) opts targ t = (NotEnabled, ?t)"
    unfolding a using assms(3) keys_length_flag [of opts]
    by (auto simp: dispatch_def)
  from 1 2 3 4 5 show ?thesis by blast
qed

theorem dispatch_priority_witness:
  "\<not> enabled (fst (getGroupConfig default_config group1 [stored False [ascii ''art'']]))
   \<and> action default_config (answering (Rejected not_found)) (Some member)
       (no_options\<lparr>opt_status := Some True\<rparr>) None [stored False [ascii ''art'']]
     = (Status False [ascii ''art''] True, [stored False [ascii ''art'']])
   \<and> action default_config (answering (Rejected not_found)) (Some admin)
       (no_options\<lparr>opt_on := Some True\<rparr>) None [stored False [ascii ''art'']]
     = (EnabledSet True, [stored True [ascii ''art'']])
   \<and> action default_config (answering (Rejected not_found)) (Some admin)
       (no_options\<lparr>opt_add := Some (ascii ''cute'')\<rparr>) None [stored False [ascii ''art'']]
     = (NotEnabled, [stored False [ascii ''art'']])
   \<and> action default_config (answering (Rejected not_found)) (Some member)
       no_options (Some (ascii ''cute'')) [stored False [ascii ''art'']]
     = (NotEnabled, [stored False [ascii ''art'']])"
proof -
  let ?w = "answering (Rejected not_found)" and ?t = "[stored False [ascii ''art'']]"
  have g: "guildId member = Some group1" "group1 \<noteq> []"
    and g': "guildId admin = Some group1" "group1 \<noteq> []"
    by (simp_all add: member_def admin_def group1_def ascii_def)
  have a: "2 \<le> authority_or_0 (user admin)"
    by (simp add: admin_def authority_or_0_def)
  have c: "getGroupConfig default_config group1 ?t = (stored False [ascii ''art''], ?t)"
    by (simp add: getGroupConfig_def db_get_def stored_def)
  have e: "\<not> enabled (fst (getGroupConfig default_config group1 ?t))"
    unfolding c by (simp add: stored_def)
  have u: "updateGroupConfig group1 (Enabled True) ?t = [stored True [ascii ''art'']]"
    by (simp add: updateGroupConfig_def db_set_def stored_def)
  have f: "customTags (stored False [ascii ''art'']) = [ascii ''art'']"
    "useGlobalTags (stored False [ascii ''art''])"
    by (simp_all add: stored_def)
  have n: "ascii ''cute'' \<noteq> []"
    by (simp add: ascii_def)
  have 1: "action default_config ?w (Some member) (no_options\<lparr>opt_status := Some True\<rparr>) None ?t
     = (Status False [ascii ''art''] True, ?t)"
    using dispatch_priority [OF g e, of "no_options\<lparr>opt_status := Some True\<rparr>" ?w None]
    by (simp add: c f no_options_def flag_def)
  have 2: "action default_config ?w (Some admin) (no_options\<lparr>opt_on := Some True\<rparr>) None ?t
     = (EnabledSet True, [stored True [ascii ''art'']])"
    using dispatch_priority [OF g' e, of "no_options\<lparr>opt_on := Some True\<rparr>" ?w None] a
    by (simp add: c u no_options_def flag_def)
  have 3: "action default_config ?w (Some admin) (no_options\<lparr>opt_add := Some (ascii ''cute'')\<rparr>) None ?t
     = (NotEnabled, ?t)"
    using dispatch_priority [OF g' e, of "no_options\<lparr>opt_add := Some (ascii ''cute'')\<rparr>" ?w None]
    by (simp add: c no_options_def flag_def given_def truthy_def n)
  have 4: "action default_config ?w (Some member) no_options (Some (ascii ''cute'')) ?t
     = (NotEnabled, ?t)"
    using dispatch_priority [OF g e, of no_options ?w "Some (ascii ''cute'')"]
    by (simp add: c no_options_def flag_def given_def truthy_def n)
  from e 1 2 3 4 show ?thesis by blast
qed

section \<open>Defaults on first access\<close>

text \<open>
  Claim C6. For a group without a stored row, \<open>getGroupConfig\<close> builds the record
  of the system defaults with no custom tags, stores it as one new row under a fresh
  key, and returns it; a second call returns that row, with the same four fields,
  and creates nothing: the group has exactly one row.
\<close>

theorem getGroupConfig_default_once:
  assumes "db_get t g = []"
  shows "fst (getGroupConfig config g t)
         = \<lparr>rowId = None, groupId = g, enabled = enabledByDefault config,
            useGlobalTags = useGlobalTagsByDefault config, customTags = []\<rparr>
   \<and> snd (getGroupConfig config g t)
         = t @ [\<lparr>rowId = Some (next_id t), groupId = g, enabled = enabledByDefault config,
                 useGlobalTags = useGlobalTagsByDefault config, customTags = []\<rparr>]
   \<and> Some (next_id t) \<notin> rowId ` set t
   \<and> getGroupConfig config g (snd (getGroupConfig config g t))
         = (\<lparr>rowId = Some (next_id t), groupId = g, enabled = enabledByDefault config,
             useGlobalTags = useGlobalTagsByDefault config, customTags = []\<rparr>,
            snd (getGroupConfig config g t))
   \<and> length (db_get (snd (getGroupConfig config g (snd (getGroupConfig config g t)))) g) = 1"
proof -
  let ?row = "\<lparr>rowId = Some (next_id t), groupId = g, enabled = enabledByDefault config,
                 useGlobalTags = useGlobalTagsByDefault config, customTags = []\<rparr>"
  have first: "getGroupConfig config g t
         = (\<lparr>rowId = None, groupId = g, enabled = enabledByDefault config,
             useGlobalTags = useGlobalTagsByDefault config, customTags = []\<rparr>, t @ [?row])"
    using assms by (rule getGroupConfig_fresh)
  have d: "db_get (t @ [?row]) g = [?row]"
    using assms by (simp add: db_get_def)
  have second: "getGroupConfig config g (t @ [?row]) = (?row, t @ [?row])"
    using d by (rule getGroupConfig_stored)
  have fresh: "Some (next_id t) \<notin> rowId ` set t"
    using next_id_fresh [of _ t] by force
  show ?thesis
    unfolding first by (simp add: second d fresh)
qed

theorem getGroupConfig_default_once_witness:
  "db_get [stored True [ascii ''art'']] (ascii ''2002'') = []
   \<and> getGroupConfig default_config (ascii ''2002'') [stored True [ascii ''art'']]
     = (\<lparr>rowId = None, groupId = ascii ''2002'', enabled = True, useGlobalTags = True,
          customTags = []\<rparr>,
        [stored True [ascii ''art''],
         \<lparr>rowId = Some 2, groupId = ascii ''2002'', enabled = True, useGlobalTags = True,
          customTags = []\<rparr>])
   \<and> getGroupConfig default_config (ascii ''2002'')
       [stored True [ascii ''art''],
         \<lparr>rowId = Some 2, groupId = ascii ''2002'', enabled = True, useGlobalTags = True,
          customTags = []\<rparr>]
     = (\<lparr>rowId = Some 2, groupId = ascii ''2002'', enabled = True, useGlobalTags = True,
          customTags = []\<rparr>,
        [stored True [ascii ''art''],
         \<lparr>rowId = Some 2, groupId = ascii ''2002'', enabled = True, useGlobalTags = True,
          customTags = []\<rparr>])"
proof -
  let ?t = "[stored True [ascii ''art'']]"
  have d: "db_get ?t (ascii ''2002'') = []"
    by (simp add: db_get_def stored_def group1_def ascii_def)
  have n: "next_id ?t = 2"
    by (simp add: next_id_def stored_def)
  have c: "enabledByDefault default_config" "useGlobalTagsByDefault default_config"
    by (simp_all add: default_config_def)
  note once = getGroupConfig_default_once [OF d, of default_config, unfolded n]
  from once [THEN conjunct1] have 1: "fst (getGroupConfig default_config (ascii ''2002'') ?t)
     = \<lparr>rowId = None, groupId = ascii ''2002'', enabled = True, useGlobalTags = True,
          customTags = []\<rparr>"
    by (simp add: c)
  from once [THEN conjunct2, THEN conjunct1] have 2: "snd (getGroupConfig default_config (ascii ''2002'') ?t)
     = [stored True [ascii ''art''],
         \<lparr>rowId = Some 2, groupId = ascii ''2002'', enabled = True, useGlobalTags = True,
          customTags = []\<rparr>]"
    by (simp add: c)
  from once [THEN conjunct2, THEN conjunct2, THEN conjunct2, THEN conjunct1] have 3: "getGroupConfig default_config (ascii ''2002'')
       (snd (getGroupConfig default_config (ascii ''2002'') ?t))
     = (\<lparr>rowId = Some 2, groupId = ascii ''2002'', enabled = True, useGlobalTags = True,
          customTags = []\<rparr>,
        snd (getGroupConfig default_config (ascii ''2002'') ?t))"
    by (simp add: c)
  from 1 2 have "getGroupConfig default_config (ascii ''2002'') ?t
     = (\<lparr>rowId = None, groupId = ascii ''2002'', enabled = True, useGlobalTags = True,
          customTags = []\<rparr>,
        [stored True [ascii ''art''],
         \<lparr>rowId = Some 2, groupId = ascii ''2002'', enabled = True, useGlobalTags = True,
          customTags = []\<rparr>])"
    by (simp add: prod_eq_iff)
  with d 3 [unfolded 2] show ?thesis by blast
qed

section \<open>The custom tags stay free of duplicates\<close>

lemma distinct_db_set:
  assumes "\<forall>r \<in> set t. distinct (customTags r)"
    and "\<And>ts. d = CustomTags ts \<Longrightarrow> distinct ts"
  shows "\<forall>r \<in> set (db_set t g d). distinct (customTags r)"
  using assms by (cases d) (auto simp: db_set_def)

lemma distinct_getGroupConfig:
  assumes "\<forall>r \<in> set t. distinct (customTags r)"
  shows "distinct (customTags (fst (getGroupConfig config g t)))"
    and "\<forall>r \<in> set (snd (getGroupConfig config g t)). distinct (customTags r)"
proof -
  show "distinct (customTags (fst (getGroupConfig config g t)))"
  proof (cases "db_get t g")
    case Nil
    then show ?thesis by (simp add: getGroupConfig_fresh)
  next
    case (Cons r rs)
    then have "r \<in> set (db_get t g)" by simp
    then have "r \<in> set t" by (simp add: db_get_def)
    with assms Cons show ?thesis by (simp add: getGroupConfig_stored)
  qed
  show "\<forall>r \<in> set (snd (getGroupConfig config g t)). distinct (customTags r)"
    using assms by (cases "db_get t g") (auto simp: getGroupConfig_fresh getGroupConfig_stored)
qed

lemma distinct_dispatch:
  assumes "\<forall>r \<in> set t. distinct (customTags r)" and "distinct (customTags gc)"
  shows "\<forall>r \<in> set (snd (dispatch config w g u opts targ gc t)). distinct (customTags r)"
proof -
  have e: "\<forall>r \<in> set (updateGroupConfig g (Enabled b) t). distinct (customTags r)" for b
    unfolding updateGroupConfig_def using assms(1) by (rule distinct_db_set) simp
  have u: "\<forall>r \<in> set (updateGroupConfig g (UseGlobalTags b) t). distinct (customTags r)" for b
    unfolding updateGroupConfig_def using assms(1) by (rule distinct_db_set) simp
  have a: "\<forall>r \<in> set (updateGroupConfig g
              (CustomTags (uniq (customTags gc @ tagsToModify opts))) t). distinct (customTags r)"
    unfolding updateGroupConfig_def using assms(1)
    by (rule distinct_db_set) (simp add: distinct_uniq)
  have r: "\<forall>r \<in> set (updateGroupConfig g
              (CustomTags (filter (\<lambda>x. x \<notin> set (tagsToModify opts)) (customTags gc))) t).
             distinct (customTags r)"
    unfolding updateGroupConfig_def using assms(1)
    by (rule distinct_db_set) (simp add: assms(2))
  show ?thesis
    unfolding dispatch_def Let_def using assms(1) e u a r
    by (simp only: split: if_splits) simp
qed

text \<open>
  Claim C10. If no row of the table has a duplicate in its custom tags, then no row
  has one after any invocation of the action: what \<open>add\<close> and \<open>rm\<close> store is again
  free of duplicates, and nothing else writes the custom tags.
\<close>

theorem customTags_distinct_invariant:
  assumes "\<forall>r \<in> set t. distinct (customTags r)"
  shows "\<forall>r \<in> set (snd (action config w sess opts targ t)). distinct (customTags r)"
proof (cases sess)
  case None
  with assms show ?thesis by (simp add: action_def)
next
  case (Some s)
  show ?thesis
  proof (cases "given (guildId s)")
    case False
    with Some assms show ?thesis by (simp add: action_def)
  next
    case True
    then obtain g where g: "guildId s = Some g" "g \<noteq> []"
      by (auto simp: given_def truthy_def split: option.splits)
    have "action config w (Some s) opts targ t
          = dispatch config w g (user s) opts targ
              (fst (getGroupConfig config g t)) (snd (getGroupConfig config g t))"
      using g by (rule action_group)
    with Some distinct_dispatch [OF distinct_getGroupConfig(2) distinct_getGroupConfig(1), OF assms assms]
    show ?thesis by simp
  qed
qed

theorem customTags_distinct_invariant_witness:
  "distinct (customTags (stored True [ascii ''art'']))
   \<and> snd (action default_config (answering (Rejected not_found)) (Some admin)
       (no_options\<lparr>opt_add := Some (ascii ''cute, art,cute'')\<rparr>) None [stored True [ascii ''art'']])
     = [stored True [ascii ''art'', ascii ''cute'']]
   \<and> distinct (customTags (stored True [ascii ''art'', ascii ''cute'']))"
proof -
  let ?t = "[stored True [ascii ''art'']]"
  have h: "\<forall>r \<in> set ?t. distinct (customTags r)"
    by (simp add: stored_def)
  have a: "snd (action default_config (answering (Rejected not_found)) (Some admin)
       (no_options\<lparr>opt_add := Some (ascii ''cute, art,cute'')\<rparr>) None ?t)
     = [stored True [ascii ''art'', ascii ''cute'']]"
    by (simp add: example_defs string_defs action_def dispatch_def getGroupConfig_def db_get_def
      given_def flag_def keys_length_def authority_or_0_def tagsToModify_def
      updateGroupConfig_def db_set_def Let_def)
  show ?thesis
    using customTags_distinct_invariant [OF h, of default_config "answering (Rejected not_found)"
        "Some admin" "no_options\<lparr>opt_add := Some (ascii ''cute, art,cute'')\<rparr>" None] h
    unfolding a by simp
qed


end
